theory Spec2Isabelle
  imports Main
begin

section \<open>Dispatched actions\<close>

text \<open>
  The components talk to the remote service only through \<open>dispatch(actionCreator(...))\<close>.
  A dispatch is modelled as a value appended to the list of actions the component has
  sent; the arguments are the ones the component passes. \<open>undefined\<close> and \<open>null\<close> are
  \<open>None\<close>. JavaScript numbers are modelled as \<open>int\<close>: the page arithmetic stays
  within the integers that a double represents exactly.
\<close>

datatype action =
    FetchFilesInDataset "string option" "string option" "int option" "int option"
  | FetchFoldersInDataset "string option" "string option" "int option" "int option"
  | FetchDatasetAbout "string option"
  | FetchFolderPath "string option"
  | FetchMetadataDefinitions "string option" int int
  | SetDatasetUserRole "string option" string string

section \<open>The dataset detail view (Dataset.tsx)\<close>

subsection \<open>State\<close>

text \<open>
  A pending metadata form entry: \<open>md_definition\<close> is \<open>metadata.definition\<close>, the key of the
  entry; \<open>md_content\<close> is the object \<open>metadata.content\<close>; \<open>md_id\<close> is \<open>metadata.id\<close>.
\<close>

record 'v metadata =
  md_definition :: string
  md_content :: "string \<rightharpoonup> 'v"
  md_id :: "string option"

text \<open>
  Everything a render of \<open>Dataset\<close> reads: the router parameters, the values selected
  from the store, and the thirteen \<open>useState\<close> cells. The items of the fetched batches
  are opaque (\<open>'f\<close>, \<open>'d\<close>): the component only takes their \<open>length\<close>.
\<close>

record ('f, 'd, 'v) view =
  datasetId :: "string option"
  folderId :: "string option"
  datasetRole_role :: "string option"
  filesInDataset :: "'f list"
  foldersInDataset :: "'d list"
  selectedTabIndex :: int
  enableAddMetadata :: bool
  metadataRequestForms :: "string \<rightharpoonup> 'v metadata"
  allowSubmit :: bool
  errorOpen :: bool
  showForbiddenPage :: bool
  showNotFoundPage :: bool
  paths :: "(string \<times> string) list"
  currPageNum :: int
  limit :: int
  skip :: "int option"
  prevDisabled :: bool
  nextDisabled :: bool

text \<open>The initial values of the \<open>useState\<close> cells, for given router and store values.\<close>

definition initial ::
  "string option \<Rightarrow> string option \<Rightarrow> string option \<Rightarrow> 'f list \<Rightarrow> 'd list \<Rightarrow> ('f, 'd, 'v) view" where
  "initial did fid r fs ds =
     \<lparr> datasetId = did, folderId = fid, datasetRole_role = r,
       filesInDataset = fs, foldersInDataset = ds,
       selectedTabIndex = 0, enableAddMetadata = False, metadataRequestForms = Map.empty,
       allowSubmit = False, errorOpen = False,
       showForbiddenPage = False, showNotFoundPage = False, paths = [],
       currPageNum = 0, limit = 10, skip = Some 0,
       prevDisabled = True, nextDisabled = False \<rparr>"

subsection \<open>Effects\<close>

text \<open>The effect with dependencies \<open>[filesInDataset]\<close> (lines 130-136).\<close>

definition nextDisabled_effect :: "('f, 'd, 'v) view \<Rightarrow> ('f, 'd, 'v) view" where
  "nextDisabled_effect v =
     (if int (length (filesInDataset v)) < limit v \<and> int (length (foldersInDataset v)) < limit v
      then v\<lparr>nextDisabled := True\<rparr>
      else v\<lparr>nextDisabled := False\<rparr>)"

text \<open>The effect with dependencies \<open>[skip]\<close> (lines 138-145).\<close>

definition skip_effect :: "('f, 'd, 'v) view \<Rightarrow> action list \<times> ('f, 'd, 'v) view" where
  "skip_effect v =
     (case skip v of
        None \<Rightarrow> ([], v)
      | Some s \<Rightarrow>
          ([FetchFilesInDataset (datasetId v) (folderId v) (Some s) (Some (limit v)),
            FetchFoldersInDataset (datasetId v) (folderId v) (Some s) (Some (limit v))],
           if s = 0 then v\<lparr>prevDisabled := True\<rparr> else v\<lparr>prevDisabled := False\<rparr>))"

text \<open>The effect with dependencies \<open>[searchParams]\<close> (lines 119-124).\<close>

definition searchParams_effect :: "('f, 'd, 'v) view \<Rightarrow> action list" where
  "searchParams_effect v =
     [FetchFilesInDataset (datasetId v) (folderId v) (skip v) (Some (limit v)),
      FetchFoldersInDataset (datasetId v) (folderId v) (skip v) (Some (limit v)),
      FetchDatasetAbout (datasetId v),
      FetchFolderPath (folderId v)]"

text \<open>The effect with no dependencies (lines 126-128).\<close>

definition metadataDefinitions_effect :: "action list" where
  "metadataDefinitions_effect = [FetchMetadataDefinitions None 0 100]"

subsection \<open>Handlers\<close>

definition previous :: "('f, 'd, 'v) view \<Rightarrow> ('f, 'd, 'v) view" where
  "previous v =
     (if currPageNum v - 1 \<ge> 0
      then v\<lparr>skip := Some ((currPageNum v - 1) * limit v), currPageNum := currPageNum v - 1\<rparr>
      else v)"

definition next' :: "('f, 'd, 'v) view \<Rightarrow> ('f, 'd, 'v) view" where
  "next' v =
     (if int (length (filesInDataset v)) = limit v \<or> int (length (foldersInDataset v)) = limit v
      then v\<lparr>skip := Some ((currPageNum v + 1) * limit v), currPageNum := currPageNum v + 1\<rparr>
      else v)"

definition handleTabChange :: "int \<Rightarrow> ('f, 'd, 'v) view \<Rightarrow> ('f, 'd, 'v) view" where
  "handleTabChange newTabIndex v = v\<lparr>selectedTabIndex := newTabIndex\<rparr>"

text \<open>
  The updater that \<open>setMetadata\<close> passes to \<open>setMetadataRequestForms\<close> (lines 194-201).
  \<open>metadata.definition in prevState\<close> is the test whether the key has an entry; the
  spread \<open>{ ...prevContent, ...metadata.content }\<close> is \<open>prevContent ++ content\<close>, where the
  right operand wins on common keys; \<open>{ ...prevState, [metadata.definition]: metadata }\<close>
  is the map update. (For a key that \<open>prevState\<close> only inherits from \<open>Object.prototype\<close>
  the branch is entered with an undefined \<open>prevContent\<close>, whose spread is empty, so the
  stored content is again the submitted one.)
\<close>

definition setMetadata_updater ::
  "'v metadata \<Rightarrow> (string \<rightharpoonup> 'v metadata) \<Rightarrow> (string \<rightharpoonup> 'v metadata)" where
  "setMetadata_updater md prevState =
     (let md' = (case prevState (md_definition md) of
                   Some prev \<Rightarrow> md\<lparr>md_content := md_content prev ++ md_content md\<rparr>
                 | None \<Rightarrow> md)
      in prevState(md_definition md \<mapsto> md'))"

definition setMetadata :: "'v metadata \<Rightarrow> ('f, 'd, 'v) view \<Rightarrow> ('f, 'd, 'v) view" where
  "setMetadata md v = v\<lparr>metadataRequestForms := setMetadata_updater md (metadataRequestForms v)\<rparr>"

subsection \<open>Events and re-rendering\<close>

text \<open>
  One event is one handler call or one change of a selected store value or of the search
  parameters. The component re-renders after it, and an effect runs when one of its
  dependencies changed: the arrays and \<open>searchParams\<close> are compared by reference, so each
  \<open>FilesChanged\<close> and \<open>SearchParamsChanged\<close> counts as a change; \<open>skip\<close> is compared by
  value. The effects of one commit read the same render and write different cells, so
  running them one after the other gives the state of the next render.
\<close>

datatype ('f, 'd, 'v) event =
    Previous
  | Next
  | TabChange int
  | SetMetadata "'v metadata"
  | FilesChanged "'f list"
  | FoldersChanged "'d list"
  | RoleChanged "string option"
  | SearchParamsChanged "string option"

definition effects ::
  "bool \<Rightarrow> bool \<Rightarrow> ('f, 'd, 'v) view \<Rightarrow> ('f, 'd, 'v) view \<Rightarrow> action list \<times> ('f, 'd, 'v) view" where
  "effects searchParams_changed files_changed old new =
     (let a1 = (if searchParams_changed then searchParams_effect new else []);
          v1 = (if files_changed then nextDisabled_effect new else new);
          (a2, v2) = (if skip new \<noteq> skip old then skip_effect v1 else ([], v1))
      in (a1 @ a2, v2))"

fun step :: "('f, 'd, 'v) event \<Rightarrow> ('f, 'd, 'v) view \<Rightarrow> action list \<times> ('f, 'd, 'v) view" where
  "step Previous v = effects False False v (previous v)"
| "step Next v = effects False False v (next' v)"
| "step (TabChange i) v = effects False False v (handleTabChange i v)"
| "step (SetMetadata md) v = effects False False v (setMetadata md v)"
| "step (FilesChanged fs) v = effects False True v (v\<lparr>filesInDataset := fs\<rparr>)"
| "step (FoldersChanged ds) v = effects False False v (v\<lparr>foldersInDataset := ds\<rparr>)"
| "step (RoleChanged r) v = effects False False v (v\<lparr>datasetRole_role := r\<rparr>)"
| "step (SearchParamsChanged fid) v = effects True False v (v\<lparr>folderId := fid\<rparr>)"

text \<open>The first render: every effect runs once, in the order of the source.\<close>

definition mount :: "('f, 'd, 'v) view \<Rightarrow> action list \<times> ('f, 'd, 'v) view" where
  "mount v =
     (let (a, v') = skip_effect (nextDisabled_effect v)
      in (searchParams_effect v @ metadataDefinitions_effect @ a, v'))"

fun run ::
  "('f, 'd, 'v) event list \<Rightarrow> action list \<times> ('f, 'd, 'v) view \<Rightarrow> action list \<times> ('f, 'd, 'v) view" where
  "run [] s = s"
| "run (e # es) (acts, v) = (let (a, v') = step e v in run es (acts @ a, v'))"

text \<open>The state of the mounted component after the events \<open>es\<close>.\<close>

definition after ::
  "('f, 'd, 'v) event list \<Rightarrow> string option \<Rightarrow> string option \<Rightarrow> string option \<Rightarrow>
     'f list \<Rightarrow> 'd list \<Rightarrow> ('f, 'd, 'v) view" where
  "after es did fid r fs ds = snd (run es (mount (initial did fid r fs ds)))"

text \<open>The bookkeeping that every state of the mounted component satisfies.\<close>

definition paged :: "('f, 'd, 'v) view \<Rightarrow> bool" where
  "paged v = (limit v = 10 \<and> 0 \<le> currPageNum v \<and> skip v = Some (currPageNum v * limit v)
     \<and> prevDisabled v = (currPageNum v = 0))"

subsection \<open>Rendering\<close>

text \<open>
  What \<open>Dataset\<close> returns (lines 230-454), reduced to the page shown, the tabs with the
  index given to \<open>a11yProps\<close>, the tab panels with their \<open>index\<close> and content, and the
  \<open>disabled\<close> attributes of the two paging buttons. An empty fragment renders nothing.
\<close>

datatype tab_label =
  Files | Visualizations | User_Metadata | Extracted_Metadata | Extract | Extraction_History
  | Sharing

datatype panel_content =
  FilesTable | Visualization | UserMetadata | DisplayListenerMetadata | Listeners
  | ExtractionHistoryTab | SharingTab

datatype page =
    Forbidden
  | PageNotFound
  | Layout (tabs: "(tab_label \<times> int) list") (tab_panels: "(int \<times> panel_content) list")
      (previous_button_disabled: bool) (next_button_disabled: bool)

definition render_tabs :: "string option \<Rightarrow> (tab_label \<times> int) list" where
  "render_tabs role =
     [(Files, 0), (Visualizations, 1), (User_Metadata, 2), (Extracted_Metadata, 3)]
     @ (if role \<noteq> None \<and> role \<noteq> Some ''viewer'' then [(Extract, 4)] else [])
     @ [(Extraction_History, 5)]
     @ (if role \<noteq> None \<and> role \<noteq> Some ''viewer'' then [(Sharing, 6)] else [])"

definition render_tab_panels :: "string option \<Rightarrow> (int \<times> panel_content) list" where
  "render_tab_panels role =
     [(0, FilesTable), (1, Visualization), (2, UserMetadata), (3, DisplayListenerMetadata)]
     @ (if role \<noteq> None \<and> role \<noteq> Some ''viewer'' then [(4, Listeners)] else [])
     @ [(5, ExtractionHistoryTab)]
     @ (if role \<noteq> None \<and> role \<noteq> Some ''viewer'' then [(6, SharingTab)] else [])"

definition render :: "('f, 'd, 'v) view \<Rightarrow> page" where
  "render v =
     (if showForbiddenPage v then Forbidden
      else if showNotFoundPage v then PageNotFound
      else Layout (render_tabs (datasetRole_role v)) (render_tab_panels (datasetRole_role v))
             (prevDisabled v) (nextDisabled v))"

text \<open>No handler or effect of the component sets the two error-page cells.\<close>

definition detail_shown :: "('f, 'd, 'v) view \<Rightarrow> bool" where
  "detail_shown v = (\<not> showForbiddenPage v \<and> \<not> showNotFoundPage v)"

section \<open>The change-role dialog (ChangeDatasetRoleModal)\<close>

text \<open>
  The dialog's own state is three \<open>useState\<close> cells; \<open>m_datasetId\<close> is the route
  parameter. The dialog selects nothing from the store and attaches nothing to the
  dispatched request, so the request's outcome reaches none of its cells.
\<close>

record modal =
  m_datasetId :: "string option"
  email :: string
  role :: string
  showSuccessAlert :: bool

definition initial_modal :: "string option \<Rightarrow> string \<Rightarrow> string \<Rightarrow> modal" where
  "initial_modal did currentUser currentRole =
     \<lparr> m_datasetId = did, email = currentUser, role = currentRole, showSuccessAlert = False \<rparr>"

definition onShare :: "modal \<Rightarrow> action list \<times> modal" where
  "onShare m =
     ([SetDatasetUserRole (m_datasetId m) (email m) (role m)],
      m\<lparr>email := '''', role := ''viewer'', showSuccessAlert := True\<rparr>)"

text \<open>The \<open>disabled\<close> attribute of the Share button (line 75).\<close>

definition share_disabled :: "modal \<Rightarrow> bool" where
  "share_disabled m = (if length (email m) > 0 then False else True)"

datatype outcome = Succeeded | Failed

datatype modal_event =
    SelectRole string
  | ClickShare
  | CloseAlert
  | RequestSettled outcome

fun modal_step :: "modal_event \<Rightarrow> modal \<Rightarrow> action list \<times> modal" where
  "modal_step (SelectRole r) m = ([], m\<lparr>role := r\<rparr>)"
| "modal_step ClickShare m = onShare m"
| "modal_step CloseAlert m = ([], m\<lparr>showSuccessAlert := False\<rparr>)"
| "modal_step (RequestSettled out) m = ([], m)"

fun modal_run :: "modal_event list \<Rightarrow> action list \<times> modal \<Rightarrow> action list \<times> modal" where
  "modal_run [] s = s"
| "modal_run (e # es) (acts, m) = (let (a, m') = modal_step e m in modal_run es (acts @ a, m'))"

section \<open>Pagination bookkeeping\<close>

lemma paged_initial: "paged (snd (mount (initial did fid r fs ds)))"
  by (simp add: paged_def mount_def initial_def skip_effect_def nextDisabled_effect_def)

lemma paged_step: "paged v \<Longrightarrow> paged (snd (step e v))"
  by (cases e)
     (auto simp: paged_def effects_def skip_effect_def nextDisabled_effect_def previous_def
        next'_def handleTabChange_def setMetadata_def searchParams_effect_def Let_def
        split: option.splits)

lemma paged_run: "paged (snd s) \<Longrightarrow> paged (snd (run es s))"
proof (induction es arbitrary: s)
  case Nil
  then show ?case by simp
next
  case (Cons e es)
  obtain acts v where s: "s = (acts, v)" by (cases s)
  obtain a v' where st: "step e v = (a, v')" by (cases "step e v")
  from Cons.prems s have "paged v" by simp
  then have "paged v'" using paged_step [of v e] st by simp
  then have "paged (snd (run es (acts @ a, v')))" using Cons.IH by simp
  then show ?case using s st by simp
qed

lemma paged_after: "paged (after es did fid r fs ds)"
  unfolding after_def by (rule paged_run [OF paged_initial])

text \<open>
  C1. From the initial state (\<open>currPageNum = 0\<close>, \<open>skip = 0\<close>) and after every sequence of
  events, in particular of \<open>previous\<close> and \<open>next\<close> calls, \<open>skip = currPageNum * limit\<close>.
\<close>

theorem skip_is_page_times_limit:
  "currPageNum (initial did fid r fs ds :: ('f, 'd, 'v) view) = 0
   \<and> skip (initial did fid r fs ds :: ('f, 'd, 'v) view) = Some 0
   \<and> skip (after es did fid r fs ds :: ('f, 'd, 'v) view)
       = Some (currPageNum (after es did fid r fs ds :: ('f, 'd, 'v) view)
               * limit (after es did fid r fs ds :: ('f, 'd, 'v) view))"
  using paged_after [of es did fid r fs ds] by (simp add: paged_def initial_def)

text \<open>
  C8. \<open>previous\<close> does nothing when \<open>currPageNum - 1 < 0\<close>, and after every sequence of
  events from the initial state, in particular of \<open>previous\<close> and \<open>next\<close> calls, both
  \<open>currPageNum\<close> and \<open>skip\<close> are non-negative.
\<close>

theorem page_and_skip_never_negative:
  fixes v :: "('f, 'd, 'v) view" and fs :: "'f1 list" and ds :: "'d1 list"
    and es :: "('f1, 'd1, 'v1) event list"
  shows "(currPageNum v - 1 < 0 \<longrightarrow> previous v = v)
    \<and> 0 \<le> currPageNum (after es did fid r fs ds)
    \<and> (\<exists>n. skip (after es did fid r fs ds) = Some n \<and> 0 \<le> n)"
  using paged_after [of es did fid r fs ds] by (simp add: paged_def previous_def)

theorem page_and_skip_never_negative_witness:
  "currPageNum (initial None None None [] [] :: (unit, unit, unit) view) - 1 < 0
   \<and> previous (initial None None None [] [] :: (unit, unit, unit) view)
       = initial None None None [] []
   \<and> 0 \<le> currPageNum (after [Previous, Next, Previous :: (unit, unit, unit) event]
                          None None None [] [])"
  using page_and_skip_never_negative
    [of "initial None None None [] [] :: (unit, unit, unit) view"
        "[Previous, Next, Previous :: (unit, unit, unit) event]" None None None "[]" "[]"]
  by (simp add: initial_def)

lemma detail_shown_initial: "detail_shown (snd (mount (initial did fid r fs ds)))"
  by (simp add: detail_shown_def mount_def initial_def skip_effect_def nextDisabled_effect_def)

lemma detail_shown_step: "detail_shown v \<Longrightarrow> detail_shown (snd (step e v))"
  by (cases e)
     (auto simp: detail_shown_def effects_def skip_effect_def nextDisabled_effect_def
        previous_def next'_def handleTabChange_def setMetadata_def Let_def
        split: option.splits)

lemma detail_shown_run: "detail_shown (snd s) \<Longrightarrow> detail_shown (snd (run es s))"
proof (induction es arbitrary: s)
  case Nil
  then show ?case by simp
next
  case (Cons e es)
  obtain acts v where s: "s = (acts, v)" by (cases s)
  obtain a v' where st: "step e v = (a, v')" by (cases "step e v")
  from Cons.prems s have "detail_shown v" by simp
  then have "detail_shown v'" using detail_shown_step [of v e] st by simp
  then have "detail_shown (snd (run es (acts @ a, v')))" using Cons.IH by simp
  then show ?case using s st by simp
qed

lemma detail_shown_after: "detail_shown (after es did fid r fs ds)"
  unfolding after_def by (rule detail_shown_run [OF detail_shown_initial])

lemma render_after:
  "render (after es did fid r fs ds) =
     Layout (render_tabs (datasetRole_role (after es did fid r fs ds)))
       (render_tab_panels (datasetRole_role (after es did fid r fs ds)))
       (prevDisabled (after es did fid r fs ds)) (nextDisabled (after es did fid r fs ds))"
  using detail_shown_after [of es did fid r fs ds] by (simp add: render_def detail_shown_def)

text \<open>
  C3. When \<open>skip\<close> is defined, the effect on \<open>skip\<close> sets \<open>prevDisabled\<close> to true exactly
  when \<open>skip\<close> is 0; every event that changes \<open>skip\<close> runs it, and the Previous button
  rendered after such an event is disabled exactly when the new \<open>skip\<close> is 0; so in every
  state of the mounted component the detail view is rendered and its Previous button is
  disabled exactly when \<open>skip\<close> is 0.
\<close>

theorem prevDisabled_iff_skip_zero:
  fixes v :: "('f, 'd, 'v) view" and w :: "('f1, 'd1, 'v1) view" and fs :: "'f2 list"
    and ds :: "'d2 list" and es :: "('f2, 'd2, 'v2) event list"
  shows "(skip v = Some n \<longrightarrow> prevDisabled (snd (skip_effect v)) = (n = 0))
    \<and> (skip (snd (step e w)) \<noteq> skip w \<and> skip (snd (step e w)) = Some m
         \<longrightarrow> prevDisabled (snd (step e w)) = (m = 0))
    \<and> prevDisabled (after es did fid r fs ds) = (skip (after es did fid r fs ds) = Some 0)
    \<and> (skip (snd (step e w)) \<noteq> skip w \<and> skip (snd (step e w)) = Some m
         \<and> render (snd (step e w)) = Layout ts ps pd nd
         \<longrightarrow> pd = (m = 0))
    \<and> render (after es did fid r fs ds) =
         Layout (render_tabs (datasetRole_role (after es did fid r fs ds)))
           (render_tab_panels (datasetRole_role (after es did fid r fs ds)))
           (skip (after es did fid r fs ds) = Some 0)
           (nextDisabled (after es did fid r fs ds))
    \<and> previous_button_disabled (render (after es did fid r fs ds))
         = (skip (after es did fid r fs ds) = Some 0)"
proof -
  have 1: "skip v = Some n \<longrightarrow> prevDisabled (snd (skip_effect v)) = (n = 0)"
    by (simp add: skip_effect_def)
  have 2: "skip (snd (step e w)) \<noteq> skip w \<and> skip (snd (step e w)) = Some m
         \<longrightarrow> prevDisabled (snd (step e w)) = (m = 0)"
    by (cases e)
       (auto simp: effects_def skip_effect_def nextDisabled_effect_def previous_def next'_def
          handleTabChange_def setMetadata_def Let_def split: option.splits if_splits)
  have 3: "prevDisabled (after es did fid r fs ds) = (skip (after es did fid r fs ds) = Some 0)"
    using paged_after [of es did fid r fs ds] by (simp add: paged_def)
  have 4: "skip (snd (step e w)) \<noteq> skip w \<and> skip (snd (step e w)) = Some m
         \<and> render (snd (step e w)) = Layout ts ps pd nd
         \<longrightarrow> pd = (m = 0)"
  proof (intro impI, elim conjE)
    assume c: "skip (snd (step e w)) \<noteq> skip w" and d: "skip (snd (step e w)) = Some m"
      and l: "render (snd (step e w)) = Layout ts ps pd nd"
    from l have "pd = prevDisabled (snd (step e w))"
      by (auto simp: render_def split: if_splits)
    with 2 c d show "pd = (m = 0)" by simp
  qed
  have 5: "render (after es did fid r fs ds) =
         Layout (render_tabs (datasetRole_role (after es did fid r fs ds)))
           (render_tab_panels (datasetRole_role (after es did fid r fs ds)))
           (skip (after es did fid r fs ds) = Some 0)
           (nextDisabled (after es did fid r fs ds))"
    using render_after [of es did fid r fs ds] 3 by simp
  have 6: "previous_button_disabled (render (after es did fid r fs ds))
         = (skip (after es did fid r fs ds) = Some 0)"
    using 5 by simp
  from 1 2 3 4 5 6 show ?thesis by blast
qed

theorem prevDisabled_iff_skip_zero_witness:
  "skip (snd (step Next (initial None None None (replicate 10 ()) [] :: (unit, unit, unit) view)))
     \<noteq> skip (initial None None None (replicate 10 ()) [] :: (unit, unit, unit) view)
   \<and> skip (snd (step Next (initial None None None (replicate 10 ()) []
                            :: (unit, unit, unit) view))) = Some 10
   \<and> skip (snd (step Next (initial None None None (replicate 10 ()) []
                            :: (unit, unit, unit) view))) = Some 10
   \<and> prevDisabled (snd (step Next (initial None None None (replicate 10 ()) []
                                    :: (unit, unit, unit) view))) = False
   \<and> prevDisabled (snd (skip_effect (snd (step Next (initial None None None (replicate 10 ()) []
                                    :: (unit, unit, unit) view))))) = False
   \<and> render (snd (step Next (initial None None None (replicate 10 ()) []
                              :: (unit, unit, unit) view)))
       = Layout (render_tabs None) (render_tab_panels None) False False
   \<and> skip (after [Next] None None None (replicate 10 ()) [] :: (unit, unit, unit) view)
       = Some 10
   \<and> previous_button_disabled
        (render (after [Next] None None None (replicate 10 ()) [] :: (unit, unit, unit) view))
       = False
   \<and> skip (after [Next, Previous] None None None (replicate 10 ()) []
             :: (unit, unit, unit) view) = Some 0
   \<and> previous_button_disabled
        (render (after [Next, Previous] None None None (replicate 10 ()) []
                  :: (unit, unit, unit) view))
       = True"
proof -
  let ?v = "initial None None None (replicate 10 ()) [] :: (unit, unit, unit) view"
  let ?a = "after [Next] None None None (replicate 10 ()) [] :: (unit, unit, unit) view"
  let ?b = "after [Next, Previous] None None None (replicate 10 ()) []
              :: (unit, unit, unit) view"
  have s: "skip (snd (step Next ?v)) = Some 10" and s0: "skip ?v = Some 0"
    by (simp_all add: initial_def effects_def skip_effect_def next'_def)
  have l: "render (snd (step Next ?v))
             = Layout (render_tabs None) (render_tab_panels None) False False"
    by (simp add: render_def initial_def effects_def skip_effect_def next'_def)
  have sa: "skip ?a = Some 10"
    by (simp add: after_def mount_def initial_def effects_def skip_effect_def
          nextDisabled_effect_def next'_def)
  have sb: "skip ?b = Some 0"
    by (simp add: after_def mount_def initial_def effects_def skip_effect_def
          nextDisabled_effect_def next'_def previous_def)
  from prevDisabled_iff_skip_zero
         [of "snd (step Next ?v)" 10 Next ?v 10 "[Next] :: (unit, unit, unit) event list"
            None None None "replicate 10 ()" "[] :: unit list"
            "render_tabs None" "render_tab_panels None" False False]
       prevDisabled_iff_skip_zero
         [of "snd (step Next ?v)" 10 Next ?v 10
            "[Next, Previous] :: (unit, unit, unit) event list"
            None None None "replicate 10 ()" "[] :: unit list"
            "render_tabs None" "render_tab_panels None" False False]
       s s0 l sa sb
  show ?thesis by simp
qed

lemma round_trip_from_paged_state:
  fixes v :: "('f, 'd, 'v) view"
  assumes "0 \<le> currPageNum v"
    and "skip v = Some (currPageNum v * limit v)"
    and "int (length (filesInDataset v)) = limit v \<or> int (length (foldersInDataset v)) = limit v"
  shows "currPageNum (previous (next' v)) = currPageNum v
    \<and> skip (previous (next' v)) = skip v
    \<and> currPageNum (snd (step Previous (snd (step Next v)))) = currPageNum v
    \<and> skip (snd (step Previous (snd (step Next v)))) = skip v"
  using assms
  by (auto simp: previous_def next'_def effects_def skip_effect_def Let_def)

text \<open>
  C4. In every state of the mounted component with \<open>currPageNum \<ge> 0\<close> in which the guard
  of \<open>next\<close> holds (the files batch or the folders batch has exactly \<open>limit\<close> items),
  \<open>next\<close> followed by \<open>previous\<close> gives back \<open>currPageNum\<close> and \<open>skip\<close>: for the two
  handlers alone, and for the two events with the effects they trigger.
\<close>

theorem next_then_previous_restores:
  fixes es :: "('f, 'd, 'v) event list" and fs :: "'f list" and ds :: "'d list"
  assumes "0 \<le> currPageNum (after es did fid r fs ds)"
    and "int (length (filesInDataset (after es did fid r fs ds)))
           = limit (after es did fid r fs ds)
         \<or> int (length (foldersInDataset (after es did fid r fs ds)))
           = limit (after es did fid r fs ds)"
  shows "currPageNum (previous (next' (after es did fid r fs ds)))
           = currPageNum (after es did fid r fs ds)
    \<and> skip (previous (next' (after es did fid r fs ds))) = skip (after es did fid r fs ds)
    \<and> currPageNum (snd (step Previous (snd (step Next (after es did fid r fs ds)))))
           = currPageNum (after es did fid r fs ds)
    \<and> skip (snd (step Previous (snd (step Next (after es did fid r fs ds)))))
           = skip (after es did fid r fs ds)"
proof -
  have "skip (after es did fid r fs ds)
          = Some (currPageNum (after es did fid r fs ds) * limit (after es did fid r fs ds))"
    using paged_after [of es did fid r fs ds] by (simp add: paged_def)
  with assms show ?thesis by (intro round_trip_from_paged_state)
qed

theorem next_then_previous_restores_witness:
  "0 \<le> currPageNum (after [Next, FilesChanged (replicate 10 ())] None None None
           (replicate 10 ()) [] :: (unit, unit, unit) view)
   \<and> int (length (filesInDataset
        (after [Next, FilesChanged (replicate 10 ())] None None None
           (replicate 10 ()) [] :: (unit, unit, unit) view)))
      = limit (after [Next, FilesChanged (replicate 10 ())] None None None
           (replicate 10 ()) [] :: (unit, unit, unit) view)
   \<and> skip (after [Next, FilesChanged (replicate 10 ())] None None None
           (replicate 10 ()) [] :: (unit, unit, unit) view) = Some 10
   \<and> skip (snd (step Previous (snd (step Next
        (after [Next, FilesChanged (replicate 10 ())] None None None
           (replicate 10 ()) [] :: (unit, unit, unit) view))))) = Some 10
   \<and> currPageNum (snd (step Previous (snd (step Next
        (after [Next, FilesChanged (replicate 10 ())] None None None
           (replicate 10 ()) [] :: (unit, unit, unit) view))))) = 1"
proof -
  let ?v = "after [Next, FilesChanged (replicate 10 ())] None None None
              (replicate 10 ()) [] :: (unit, unit, unit) view"
  have c: "currPageNum ?v = 1" and s: "skip ?v = Some 10" and l: "limit ?v = 10"
    and f: "int (length (filesInDataset ?v)) = 10"
    by (simp_all add: after_def mount_def initial_def effects_def skip_effect_def
          nextDisabled_effect_def next'_def searchParams_effect_def
          metadataDefinitions_effect_def)
  have h1: "0 \<le> currPageNum ?v" using c by simp
  have h2: "int (length (filesInDataset ?v)) = limit ?v
            \<or> int (length (foldersInDataset ?v)) = limit ?v" using f l by simp
  from next_then_previous_restores [OF h1 h2] c s f l show ?thesis by simp
qed



section \<open>The Next button\<close>

lemma nextDisabled_after_FilesChanged:
  "nextDisabled (snd (step (FilesChanged fs) v))
     = (int (length fs) < limit v \<and> int (length (foldersInDataset v)) < limit v)"
  by (simp add: effects_def nextDisabled_effect_def)

lemma nextDisabled_after_FoldersChanged:
  "nextDisabled (snd (step (FoldersChanged ds) v)) = nextDisabled v"
  by (simp add: effects_def)

text \<open>
  C2. The mounted component receives a files batch of 3 items and then a folders batch of
  10 items. The effect that computes \<open>nextDisabled\<close> runs for the files batch only: after
  the folders batch the Next button is still disabled, although that batch has \<open>limit\<close>
  items, and \<open>next\<close> itself would turn the page.
\<close>

theorem next_stays_disabled_after_full_folders_batch:
  "nextDisabled (after [FilesChanged [''a'', ''b'', ''c''], FoldersChanged (replicate 10 ''d'')]
       None None None [] [] :: (string, string, unit) view) = True
   \<and> int (length (foldersInDataset
        (after [FilesChanged [''a'', ''b'', ''c''], FoldersChanged (replicate 10 ''d'')]
           None None None [] [] :: (string, string, unit) view))) = 10
   \<and> limit (after [FilesChanged [''a'', ''b'', ''c''], FoldersChanged (replicate 10 ''d'')]
       None None None [] [] :: (string, string, unit) view) = 10
   \<and> \<not> (int (length (filesInDataset
        (after [FilesChanged [''a'', ''b'', ''c''], FoldersChanged (replicate 10 ''d'')]
           None None None [] [] :: (string, string, unit) view))) < 10
        \<and> int (length (foldersInDataset
        (after [FilesChanged [''a'', ''b'', ''c''], FoldersChanged (replicate 10 ''d'')]
           None None None [] [] :: (string, string, unit) view))) < 10)
   \<and> currPageNum (next'
        (after [FilesChanged [''a'', ''b'', ''c''], FoldersChanged (replicate 10 ''d'')]
           None None None [] [] :: (string, string, unit) view)) = 1"
  by (simp add: after_def mount_def initial_def effects_def skip_effect_def
        nextDisabled_effect_def next'_def searchParams_effect_def
        metadataDefinitions_effect_def)

section \<open>Tabs\<close>

text \<open>
  C6. When the detail view is rendered, the Extract and Sharing tabs and their panels
  (\<open>Listeners\<close> at index 4, \<open>SharingTab\<close> at index 6) are present exactly when
  \<open>datasetRole.role\<close> is defined and is not \<open>viewer\<close>; the Files, Visualizations, User
  Metadata, Extracted Metadata and Extraction History tabs are present for every role.
\<close>

theorem tabs_by_role:
  assumes "render v = Layout ts ps pd nd"
  shows "((Extract, 4) \<in> set ts
            \<longleftrightarrow> datasetRole_role v \<noteq> None \<and> datasetRole_role v \<noteq> Some ''viewer'')
    \<and> (Extract \<in> fst ` set ts
            \<longleftrightarrow> datasetRole_role v \<noteq> None \<and> datasetRole_role v \<noteq> Some ''viewer'')
    \<and> ((Sharing, 6) \<in> set ts
            \<longleftrightarrow> datasetRole_role v \<noteq> None \<and> datasetRole_role v \<noteq> Some ''viewer'')
    \<and> (Sharing \<in> fst ` set ts
            \<longleftrightarrow> datasetRole_role v \<noteq> None \<and> datasetRole_role v \<noteq> Some ''viewer'')
    \<and> ((4, Listeners) \<in> set ps
            \<longleftrightarrow> datasetRole_role v \<noteq> None \<and> datasetRole_role v \<noteq> Some ''viewer'')
    \<and> (Listeners \<in> snd ` set ps
            \<longleftrightarrow> datasetRole_role v \<noteq> None \<and> datasetRole_role v \<noteq> Some ''viewer'')
    \<and> ((6, SharingTab) \<in> set ps
            \<longleftrightarrow> datasetRole_role v \<noteq> None \<and> datasetRole_role v \<noteq> Some ''viewer'')
    \<and> (SharingTab \<in> snd ` set ps
            \<longleftrightarrow> datasetRole_role v \<noteq> None \<and> datasetRole_role v \<noteq> Some ''viewer'')
    \<and> {Files, Visualizations, User_Metadata, Extracted_Metadata, Extraction_History}
          \<subseteq> fst ` set ts"
proof -
  from assms have ts: "ts = render_tabs (datasetRole_role v)"
    and ps: "ps = render_tab_panels (datasetRole_role v)"
    by (auto simp: render_def split: if_splits)
  show ?thesis unfolding ts ps render_tabs_def render_tab_panels_def by auto
qed

theorem tabs_by_role_witness:
  "render (after [] None None (Some ''editor'') [] [] :: (unit, unit, unit) view)
     = Layout (render_tabs (Some ''editor'')) (render_tab_panels (Some ''editor'')) True True
   \<and> (Extract, 4) \<in> set (render_tabs (Some ''editor''))
   \<and> (6, SharingTab) \<in> set (render_tab_panels (Some ''editor''))
   \<and> render (after [] None None (Some ''viewer'') [] [] :: (unit, unit, unit) view)
     = Layout (render_tabs (Some ''viewer'')) (render_tab_panels (Some ''viewer'')) True True
   \<and> (Extract, 4) \<notin> set (render_tabs (Some ''viewer''))
   \<and> (6, SharingTab) \<notin> set (render_tab_panels (Some ''viewer''))"
proof -
  let ?e = "after [] None None (Some ''editor'') [] [] :: (unit, unit, unit) view"
  let ?w = "after [] None None (Some ''viewer'') [] [] :: (unit, unit, unit) view"
  have re: "render ?e
      = Layout (render_tabs (Some ''editor'')) (render_tab_panels (Some ''editor'')) True True"
    and rw: "render ?w
      = Layout (render_tabs (Some ''viewer'')) (render_tab_panels (Some ''viewer'')) True True"
    and de: "datasetRole_role ?e = Some ''editor''"
    and dw: "datasetRole_role ?w = Some ''viewer''"
    by (simp_all add: render_def after_def mount_def initial_def skip_effect_def
          nextDisabled_effect_def)
  from tabs_by_role [OF re] tabs_by_role [OF rw] re rw de dw show ?thesis by simp
qed

section \<open>Sharing\<close>

text \<open>
  C5. The Share button of the change-role dialog is disabled exactly when the email
  field is the empty string.
\<close>

theorem share_disabled_iff_email_empty: "share_disabled m \<longleftrightarrow> email m = ''''"
  by (simp add: share_disabled_def)

text \<open>
  C9. A click on Share dispatches the role assignment with the dialog's \<open>datasetId\<close>,
  \<open>email\<close> and \<open>role\<close>, then empties the email field, sets the role to \<open>viewer\<close> and shows
  the success alert; whichever way the request settles afterwards, the dialog stays in
  that state, with the Share button disabled. This holds for every \<open>email\<close>, so for every
  non-empty one.
\<close>

theorem share_resets_dialog_whatever_the_outcome:
  "modal_run [ClickShare, RequestSettled out] ([], m)
     = ([SetDatasetUserRole (m_datasetId m) (email m) (role m)],
        m\<lparr>email := '''', role := ''viewer'', showSuccessAlert := True\<rparr>)
   \<and> email (snd (modal_run [ClickShare, RequestSettled out] ([], m))) = ''''
   \<and> role (snd (modal_run [ClickShare, RequestSettled out] ([], m))) = ''viewer''
   \<and> showSuccessAlert (snd (modal_run [ClickShare, RequestSettled out] ([], m)))
   \<and> share_disabled (snd (modal_run [ClickShare, RequestSettled out] ([], m)))"
  by (simp add: onShare_def share_disabled_def)

section \<open>Pending metadata forms\<close>

text \<open>
  C10. After \<open>setMetadata\<close>: if the definition key of the submitted metadata had an entry,
  the entry stored under it has as content the previous content overridden by the
  submitted content (a field of the submitted content keeps its submitted value, any
  other field keeps its previous value); the entry of every other key is unchanged; and
  if the key had no entry, the submitted metadata is stored as it is.
\<close>

theorem setMetadata_merges_content:
  fixes v :: "('f, 'd, 'v) view"
  shows "(metadataRequestForms v (md_definition md) = Some prev \<longrightarrow>
            (\<exists>e. metadataRequestForms (setMetadata md v) (md_definition md) = Some e
               \<and> md_content e = md_content prev ++ md_content md
               \<and> dom (md_content e) = dom (md_content prev) \<union> dom (md_content md)
               \<and> (\<forall>f. md_content e f =
                        (if f \<in> dom (md_content md) then md_content md f
                         else md_content prev f))))
    \<and> (k \<noteq> md_definition md \<longrightarrow>
            metadataRequestForms (setMetadata md v) k = metadataRequestForms v k)
    \<and> (metadataRequestForms v (md_definition md) = None \<longrightarrow>
            metadataRequestForms (setMetadata md v) (md_definition md) = Some md)"
proof -
  have 1: "metadataRequestForms v (md_definition md) = Some prev \<longrightarrow>
            (\<exists>e. metadataRequestForms (setMetadata md v) (md_definition md) = Some e
               \<and> md_content e = md_content prev ++ md_content md
               \<and> dom (md_content e) = dom (md_content prev) \<union> dom (md_content md)
               \<and> (\<forall>f. md_content e f =
                        (if f \<in> dom (md_content md) then md_content md f
                         else md_content prev f)))"
    by (auto simp: setMetadata_def setMetadata_updater_def map_add_def dom_def
          split: option.splits)
  have 2: "k \<noteq> md_definition md \<longrightarrow>
            metadataRequestForms (setMetadata md v) k = metadataRequestForms v k"
    by (simp add: setMetadata_def setMetadata_updater_def Let_def)
  have 3: "metadataRequestForms v (md_definition md) = None \<longrightarrow>
            metadataRequestForms (setMetadata md v) (md_definition md) = Some md"
    by (simp add: setMetadata_def setMetadata_updater_def)
  from 1 2 3 show ?thesis by blast
qed

theorem setMetadata_merges_content_witness:
  "metadataRequestForms (initial None None None [] [] :: (unit, unit, int) view) ''location''
     = None
   \<and> metadataRequestForms
        (setMetadata \<lparr>md_definition = ''location'',
                       md_content = [''lat'' \<mapsto> 1, ''lon'' \<mapsto> 2], md_id = None\<rparr>
           (initial None None None [] [] :: (unit, unit, int) view)) ''location''
     = Some \<lparr>md_definition = ''location'',
              md_content = [''lat'' \<mapsto> 1, ''lon'' \<mapsto> 2], md_id = None\<rparr>
   \<and> ''time'' \<noteq> ''location''
   \<and> (\<exists>e. metadataRequestForms
             (setMetadata \<lparr>md_definition = ''location'',
                            md_content = [''lon'' \<mapsto> 5], md_id = Some ''m1''\<rparr>
               (setMetadata \<lparr>md_definition = ''location'',
                              md_content = [''lat'' \<mapsto> 1, ''lon'' \<mapsto> 2], md_id = None\<rparr>
                  (initial None None None [] [] :: (unit, unit, int) view))) ''location''
            = Some e
          \<and> md_content e ''lat'' = Some 1 \<and> md_content e ''lon'' = Some 5
          \<and> md_content e ''alt'' = None)
   \<and> metadataRequestForms
        (setMetadata \<lparr>md_definition = ''location'',
                       md_content = [''lon'' \<mapsto> 5], md_id = Some ''m1''\<rparr>
          (setMetadata \<lparr>md_definition = ''location'',
                         md_content = [''lat'' \<mapsto> 1, ''lon'' \<mapsto> 2], md_id = None\<rparr>
             (initial None None None [] [] :: (unit, unit, int) view))) ''time''
     = None"
proof -
  let ?A = "\<lparr>md_definition = ''location'',
             md_content = [''lat'' \<mapsto> 1, ''lon'' \<mapsto> 2 :: int], md_id = None\<rparr>"
  let ?B = "\<lparr>md_definition = ''location'',
             md_content = [''lon'' \<mapsto> 5 :: int], md_id = Some ''m1''\<rparr>"
  let ?i = "initial None None None [] [] :: (unit, unit, int) view"
  let ?v = "setMetadata ?A ?i"
  have n: "metadataRequestForms ?i (md_definition ?A) = None"
    by (simp add: initial_def)
  have t: "metadataRequestForms ?v ''time'' = None"
    by (simp add: initial_def setMetadata_def setMetadata_updater_def)
  have d: "''time'' \<noteq> md_definition ?B"
    by simp
  from setMetadata_merges_content [of ?i ?A ?A "''time''"] n
  have a: "metadataRequestForms ?v (md_definition ?B) = Some ?A"
    by simp
  from setMetadata_merges_content [of ?v ?B ?A "''time''"] a d
  obtain e where e: "metadataRequestForms (setMetadata ?B ?v) (md_definition ?B) = Some e"
      "md_content e = md_content ?A ++ md_content ?B"
    and k: "metadataRequestForms (setMetadata ?B ?v) ''time'' = metadataRequestForms ?v ''time''"
    by blast
  have "md_content e ''lat'' = Some 1" "md_content e ''lon'' = Some 5"
    "md_content e ''alt'' = None"
    using e(2) by (simp_all add: map_add_def)
  with n a e(1) k t show ?thesis by simp
qed

end
